theory Spec2Isabelle
  imports Complex_Main "HOL-Library.Word"
begin

unbundle bit_operations_syntax

section \<open>Decision history (src/types.ts, src/App.tsx lines 129-133)\<close>

text \<open>
  The interfaces of \<^verbatim>\<open>types.ts\<close>. Optional fields are options, JavaScript numbers that
  carry counts or timestamps are integers, the string unions are datatypes.
\<close>

record WeightedItem =
  item_id :: string
  item_text :: string
  weight :: int

datatype DecisionMode = Standard | Quick

datatype Outcome = Followed | Ignored | Pending

record Decision =
  decision_id :: string
  dilemma :: string
  pros :: "WeightedItem list"
  cons :: "WeightedItem list"
  mode :: DecisionMode
  recommendation :: "string option"
  explanation :: "string option"
  confidence :: "real option"
  outcome :: "Outcome option"
  createdAt :: int

text \<open>
  \<^verbatim>\<open>const updated = [newDecision, ...history].slice(0, 50);\<close>
  The function takes the history of the render it was created in and returns the list that
  is both stored in the component state and written to the local storage.
\<close>

definition saveToHistory :: "Decision \<Rightarrow> Decision list \<Rightarrow> Decision list" where
  "saveToHistory newDecision history = take 50 (newDecision # history)"

text \<open>
  Saving a sequence of decisions one after the other, the oldest first, each save reading
  the history that the save before it stored.
\<close>

fun saveAll :: "Decision list \<Rightarrow> Decision list \<Rightarrow> Decision list" where
  "saveAll history [] = history"
| "saveAll history (d # ds) = saveAll (saveToHistory d history) ds"

section \<open>Codec utilities (src/App.tsx lines 8-57)\<close>

text \<open>
  Exceptions of the platform that the modelled code can meet. The source defines no
  exception class of its own.
\<close>

datatype exception =
    InvalidCharacterError | RangeError | NotSupportedError | TypeError
  | NotAllowedError | NotFoundError | OtherError

text \<open>
  A JavaScript string is a sequence of 16-bit code units; a \<^verbatim>\<open>Uint8Array\<close> is a sequence
  of bytes.
\<close>

type_synonym jsstring = "16 word list"
type_synonym Uint8Array = "8 word list"
type_synonym Int16Array = "16 word list"

subsection \<open>The platform's \<^verbatim>\<open>btoa\<close> and \<open>atob\<close>\<close>

text \<open>
  \<^verbatim>\<open>btoa\<close> and \<^verbatim>\<open>atob\<close> are functions of the browser, not of the repository. They are
  modelled from their definition in the web platform standards: \<^verbatim>\<open>btoa\<close> throws
  \<^verbatim>\<open>InvalidCharacterError\<close> when a code unit exceeds 255 and otherwise applies the base64
  encoding of RFC 4648 with padding; \<^verbatim>\<open>atob\<close> is the forgiving base64 decoding: it removes
  ASCII whitespace, removes one or two trailing padding characters when the length is a
  multiple of four, fails when the remaining length is 1 modulo 4 or a character is outside
  the alphabet, and otherwise reads six bits per character, dropping the four or two
  surplus bits of a final group of two or three characters.
\<close>

definition base64_alphabet :: jsstring where
  "base64_alphabet =
     map of_char ''ABCDEFGHIJKLMNOPQRSTUVWXYZabcdefghijklmnopqrstuvwxyz0123456789+/''"

definition pad_char :: "16 word" where
  "pad_char = of_char CHR ''=''"

definition is_ascii_whitespace :: "16 word \<Rightarrow> bool" where
  "is_ascii_whitespace c \<longleftrightarrow> c = 9 \<or> c = 10 \<or> c = 12 \<or> c = 13 \<or> c = 32"

fun index_of :: "'a \<Rightarrow> 'a list \<Rightarrow> nat option" where
  "index_of x [] = None"
| "index_of x (y # ys) = (if x = y then Some 0 else map_option Suc (index_of x ys))"

text \<open>
  The six-bit groups of a byte sequence: three bytes form a 24-bit number read as four
  groups; a final group of one or two bytes is filled with zero bits to 12 or 18 bits.
\<close>

fun sextets :: "Uint8Array \<Rightarrow> nat list" where
  "sextets [] = []"
| "sextets [a] = (let n = unat a * 16 in [n div 64, n mod 64])"
| "sextets [a, b] =
     (let n = (unat a * 256 + unat b) * 4 in [n div 4096, n div 64 mod 64, n mod 64])"
| "sextets (a # b # c # rest) =
     (let n = (unat a * 256 + unat b) * 256 + unat c
      in [n div 262144, n div 4096 mod 64, n div 64 mod 64, n mod 64]) @ sextets rest"

definition base64_encode :: "Uint8Array \<Rightarrow> jsstring" where
  "base64_encode bytes =
     map (\<lambda>s. base64_alphabet ! s) (sextets bytes)
     @ replicate ((3 - length bytes mod 3) mod 3) pad_char"

definition btoa :: "jsstring \<Rightarrow> exception + jsstring" where
  "btoa s = (if list_ex (\<lambda>c. 255 < c) s then Inl InvalidCharacterError
             else Inr (base64_encode (map ucast s)))"

definition strip_padding :: "jsstring \<Rightarrow> jsstring" where
  "strip_padding d =
     (case rev d of
        p # q # r \<Rightarrow> if p = pad_char \<and> q = pad_char then rev r
                     else if p = pad_char then rev (q # r) else d
      | [p] \<Rightarrow> if p = pad_char then [] else d
      | [] \<Rightarrow> d)"

fun decode_groups :: "nat list \<Rightarrow> Uint8Array" where
  "decode_groups (s0 # s1 # s2 # s3 # rest) =
     (let n = ((s0 * 64 + s1) * 64 + s2) * 64 + s3
      in [of_nat (n div 65536), of_nat (n div 256 mod 256), of_nat (n mod 256)])
     @ decode_groups rest"
| "decode_groups [s0, s1, s2] =
     (let n = ((s0 * 64 + s1) * 64 + s2) div 4
      in [of_nat (n div 256), of_nat (n mod 256)])"
| "decode_groups [s0, s1] = (let n = (s0 * 64 + s1) div 16 in [of_nat n])"
| "decode_groups [s0] = []"
| "decode_groups [] = []"

definition atob :: "jsstring \<Rightarrow> exception + jsstring" where
  "atob data =
     (let d1 = filter (\<lambda>c. \<not> is_ascii_whitespace c) data;
          d2 = (if length d1 mod 4 = 0 then strip_padding d1 else d1)
      in if length d2 mod 4 = 1 then Inl InvalidCharacterError
         else (case those (map (\<lambda>c. index_of c base64_alphabet) d2) of
                 None \<Rightarrow> Inl InvalidCharacterError
               | Some positions \<Rightarrow> Inr (map ucast (decode_groups positions))))"

subsection \<open>\<^verbatim>\<open>encode\<close> and \<^verbatim>\<open>decode\<close> (lines 9-26)\<close>

text \<open>
  \<^verbatim>\<open>encode\<close> appends \<^verbatim>\<open>String.fromCharCode(bytes[i])\<close> for every index and passes the string
  to \<^verbatim>\<open>btoa\<close>; \<^verbatim>\<open>decode\<close> calls \<^verbatim>\<open>atob\<close> and stores \<^verbatim>\<open>charCodeAt(i)\<close> at every index of a
  new \<^verbatim>\<open>Uint8Array\<close>, which keeps the low eight bits.
\<close>

definition encode :: "Uint8Array \<Rightarrow> exception + jsstring" where
  "encode bytes = btoa (map ucast bytes)"

definition decode :: "jsstring \<Rightarrow> exception + Uint8Array" where
  "decode base64 =
     (case atob base64 of
        Inl e \<Rightarrow> Inl e
      | Inr binaryString \<Rightarrow> Inr (map ucast binaryString))"

text \<open>The characters of an encoding before its padding; used in the proofs only.\<close>

definition body :: "Uint8Array \<Rightarrow> jsstring" where
  "body bytes = map (\<lambda>s. base64_alphabet ! s) (sextets bytes)"

section \<open>Audio conversion (src/App.tsx lines 28-57)\<close>

text \<open>
  A JavaScript number or an element of a \<^verbatim>\<open>Float32Array\<close>: a finite value, or one of the
  three special values. Finite values are kept as exact reals. The only arithmetic the
  modelled code applies to samples is the division of a 16-bit integer by 32768 and the
  multiplication of a 32-bit float by 32768, and both are exact in double precision.
\<close>

datatype float = Finite real | NaN | PosInfinity | NegInfinity

type_synonym Float32Array = "float list"

text \<open>
  \<^verbatim>\<open>new Int16Array(data.buffer)\<close> reads the buffer in pairs of bytes, low byte first on the
  little-endian platforms browsers run on, and throws \<^verbatim>\<open>RangeError\<close> when the byte length is
  odd. The array passed by the only caller is the one \<^verbatim>\<open>decode\<close> allocates, whose buffer
  holds exactly its bytes.
\<close>

fun int16_pairs :: "Uint8Array \<Rightarrow> Int16Array" where
  "int16_pairs (lo # hi # rest) = (ucast hi * 256 + ucast lo) # int16_pairs rest"
| "int16_pairs [lo] = []"
| "int16_pairs [] = []"

definition new_Int16Array :: "Uint8Array \<Rightarrow> exception + Int16Array" where
  "new_Int16Array buffer =
     (if length buffer mod 2 \<noteq> 0 then Inl RangeError else Inr (int16_pairs buffer))"

text \<open>
  An audio context, with the limits of the implementation that \<^verbatim>\<open>createBuffer\<close> checks.
  \<^verbatim>\<open>createBuffer\<close> converts its length argument to an unsigned integer by truncation
  (lengths stay below \<open>2\<^sup>3\<^sup>2\<close>) and throws \<^verbatim>\<open>NotSupportedError\<close> when an argument is zero
  or outside its range; the new buffer is filled with zeros.
\<close>

record AudioContext =
  context_id :: nat
  maxChannels :: nat
  minSampleRate :: real
  maxSampleRate :: real

record AudioBuffer =
  sampleRate :: real
  frames :: nat
  channelData :: "Float32Array list"

definition duration :: "AudioBuffer \<Rightarrow> real" where
  "duration buffer = real (frames buffer) / sampleRate buffer"

definition createBuffer ::
  "AudioContext \<Rightarrow> nat \<Rightarrow> real \<Rightarrow> real \<Rightarrow> exception + AudioBuffer" where
  "createBuffer ctx numberOfChannels len rate =
     (let n = nat \<lfloor>len\<rfloor>
      in if numberOfChannels = 0 \<or> maxChannels ctx < numberOfChannels \<or> n = 0
            \<or> rate < minSampleRate ctx \<or> maxSampleRate ctx < rate
         then Inl NotSupportedError
         else Inr \<lparr>sampleRate = rate, frames = n,
                   channelData = replicate numberOfChannels (replicate n (Finite 0))\<rparr>)"

text \<open>
  \<^verbatim>\<open>decodeAudioData\<close> (lines 28-45). \<^verbatim>\<open>dataInt16[k] / 32768.0\<close>: reading beyond the end gives
  \<^verbatim>\<open>undefined\<close>, and the quotient is then \<^verbatim>\<open>NaN\<close>.
\<close>

definition sample_at :: "Int16Array \<Rightarrow> nat \<Rightarrow> float" where
  "sample_at dataInt16 k =
     (if k < length dataInt16 then Finite (real_of_int (sint (dataInt16 ! k)) / 32768) else NaN)"

text \<open>
  The inner loop \<^verbatim>\<open>for (let i = 0; i < frameCount; i++)\<close>. \<^verbatim>\<open>frameCount\<close> is a quotient and
  need not be whole, so the loop runs for every \<open>i\<close> below its ceiling. A typed array
  ignores a write beyond its end, as \<open>xs[i := v]\<close> does.
\<close>

definition fill_channel ::
  "Int16Array \<Rightarrow> nat \<Rightarrow> real \<Rightarrow> nat \<Rightarrow> Float32Array \<Rightarrow> Float32Array" where
  "fill_channel dataInt16 numChannels frameCount channel cd0 =
     foldl (\<lambda>cd i. cd[i := sample_at dataInt16 (i * numChannels + channel)])
       cd0 [0..<nat \<lceil>frameCount\<rceil>]"

text \<open>
  When \<^verbatim>\<open>numChannels\<close> is 0 the quotient is \<^verbatim>\<open>Infinity\<close> or \<^verbatim>\<open>NaN\<close> in JavaScript and 0 here;
  \<^verbatim>\<open>createBuffer\<close> throws for zero channels whatever the length, so the difference is not
  observable.
\<close>

definition decodeAudioData ::
  "Uint8Array \<Rightarrow> AudioContext \<Rightarrow> real \<Rightarrow> nat \<Rightarrow> exception + AudioBuffer" where
  "decodeAudioData data ctx rate numChannels =
     (case new_Int16Array data of
        Inl e \<Rightarrow> Inl e
      | Inr dataInt16 \<Rightarrow>
          (let frameCount = real (length dataInt16) / real numChannels
           in case createBuffer ctx numChannels frameCount rate of
                Inl e \<Rightarrow> Inl e
              | Inr buffer \<Rightarrow>
                  Inr (buffer\<lparr>channelData :=
                         foldl (\<lambda>cs channel.
                                  cs[channel := fill_channel dataInt16 numChannels frameCount
                                                  channel (cs ! channel)])
                           (channelData buffer) [0..<numChannels]\<rparr>)))"

text \<open>
  \<^verbatim>\<open>createBlob\<close> (lines 47-57). Storing a number into an \<^verbatim>\<open>Int16Array\<close> applies the
  conversion \<^verbatim>\<open>ToInt16\<close> of the language: the special values become 0, a finite value is
  truncated towards zero and reduced modulo \<open>2\<^sup>1\<^sup>6\<close>.
\<close>

definition trunc :: "real \<Rightarrow> int" where
  "trunc x = (if 0 \<le> x then \<lfloor>x\<rfloor> else \<lceil>x\<rceil>)"

definition times :: "float \<Rightarrow> real \<Rightarrow> float" where
  "times x k =
     (case x of
        Finite r \<Rightarrow> Finite (r * k)
      | NaN \<Rightarrow> NaN
      | PosInfinity \<Rightarrow> PosInfinity
      | NegInfinity \<Rightarrow> NegInfinity)"

definition ToInt16 :: "float \<Rightarrow> 16 word" where
  "ToInt16 x = (case x of Finite r \<Rightarrow> word_of_int (trunc r) | _ \<Rightarrow> 0)"

text \<open>The loop of lines 48-52: \<^verbatim>\<open>int16[i] = data[i] * 32768\<close>.\<close>

definition floatToPcm16 :: "Float32Array \<Rightarrow> Int16Array" where
  "floatToPcm16 data = map (\<lambda>x. ToInt16 (times x 32768)) data"

text \<open>\<^verbatim>\<open>new Uint8Array(int16.buffer)\<close>: the bytes of the samples, low byte first.\<close>

definition int16_bytes :: "Int16Array \<Rightarrow> Uint8Array" where
  "int16_bytes int16 = concat (map (\<lambda>w. [ucast w, ucast (drop_bit 8 w)]) int16)"

record Blob =
  blob_data :: jsstring
  mimeType :: string

definition createBlob :: "Float32Array \<Rightarrow> exception + Blob" where
  "createBlob data =
     (case encode (int16_bytes (floatToPcm16 data)) of
        Inl e \<Rightarrow> Inl e
      | Inr text \<Rightarrow> Inr \<lparr>blob_data = text, mimeType = ''audio/pcm;rate=16000''\<rparr>)"

section \<open>The live voice session (src/App.tsx lines 106-116 and 251-372)\<close>

text \<open>
  The component state and the refs of the live conversation. Objects with identity (source
  nodes, tracks, the session promise) are numbers; a media stream is the list of its
  tracks; the \<^verbatim>\<open>Set\<close> of source nodes is a list without repetition in insertion order.
  Times are reals. \<open>created\<close> counts the source nodes created so far and gives the next
  node its identity. \<open>effects\<close> records, in order, the calls made on devices, nodes and
  the session; it is how the model observes what a handler does to the outside.
\<close>

datatype LiveStatus = IDLE | LISTENING | THINKING | SPEAKING

type_synonym AudioBufferSourceNode = nat
type_synonym MediaStream = "nat list"
type_synonym Session = nat

datatype effect =
    TrackStop nat
  | ContextClose AudioContext
  | SourceStart AudioBufferSourceNode real
  | SourceStop AudioBufferSourceNode
  | SessionClose Session

record App =
  isListening :: bool
  liveStatus :: LiveStatus
  error :: "string option"
  inputAudioContextRef :: "AudioContext option"
  outputAudioContextRef :: "AudioContext option"
  nextStartTimeRef :: real
  sourcesRef :: "AudioBufferSourceNode list"
  streamRef :: "MediaStream option"
  sessionRef :: "Session option"
  created :: nat
  effects :: "effect list"

text \<open>
  \<^verbatim>\<open>stopListening\<close> (lines 251-275). A failing \<^verbatim>\<open>source.stop()\<close> is caught by the source
  and the loop goes on, so the call is recorded for every node. The session is closed in
  a callback of the session promise; the model records the request.
\<close>

definition stopListening :: "App \<Rightarrow> App" where
  "stopListening s =
     (let s1 = s\<lparr>isListening := False, liveStatus := IDLE\<rparr>;
          s2 = (case streamRef s1 of
                  None \<Rightarrow> s1
                | Some stream \<Rightarrow>
                    s1\<lparr>effects := effects s1 @ map TrackStop stream, streamRef := None\<rparr>);
          s3 = (case inputAudioContextRef s2 of
                  None \<Rightarrow> s2
                | Some ctx \<Rightarrow>
                    s2\<lparr>effects := effects s2 @ [ContextClose ctx],
                       inputAudioContextRef := None\<rparr>);
          s4 = (case outputAudioContextRef s3 of
                  None \<Rightarrow> s3
                | Some ctx \<Rightarrow>
                    s3\<lparr>effects := effects s3 @ [ContextClose ctx],
                       outputAudioContextRef := None\<rparr>);
          s5 = s4\<lparr>effects := effects s4 @ map SourceStop (sourcesRef s4)\<rparr>;
          s6 = s5\<lparr>sourcesRef := [], nextStartTimeRef := 0\<rparr>
      in case sessionRef s6 of
           None \<Rightarrow> s6
         | Some session \<Rightarrow>
             s6\<lparr>effects := effects s6 @ [SessionClose session], sessionRef := None\<rparr>)"

text \<open>
  \<^verbatim>\<open>toggleVoiceInput\<close> (lines 277-372). What the platform answers during startup is a
  parameter: the result of \<^verbatim>\<open>getUserMedia\<close> (\<^verbatim>\<open>NotAllowedError\<close> when the user declines,
  \<^verbatim>\<open>NotFoundError\<close> when there is no input device), whether the client constructor
  throws, the two audio contexts, and the session promise that \<^verbatim>\<open>connect\<close> returns. Every
  exception inside the guarded block reaches the same handler. The function is taken as
  one step.
\<close>

record Startup =
  getUserMedia :: "exception + MediaStream"
  newGoogleGenAI :: "exception option"
  newInputContext :: "exception + AudioContext"
  newOutputContext :: "exception + AudioContext"
  connect :: Session

definition startup_failed :: "App \<Rightarrow> App" where
  "startup_failed s =
     s\<lparr>isListening := False, liveStatus := IDLE,
       error := Some ''Microphone access is needed.''\<rparr>"

definition toggleVoiceInput :: "Startup \<Rightarrow> App \<Rightarrow> App" where
  "toggleVoiceInput env s =
     (if isListening s then stopListening s
      else
        (let s1 = s\<lparr>isListening := True, liveStatus := LISTENING, error := None\<rparr>
         in case getUserMedia env of
              Inl e \<Rightarrow> startup_failed s1
            | Inr stream \<Rightarrow>
                (let s2 = s1\<lparr>streamRef := Some stream\<rparr>
                 in case newGoogleGenAI env of
                      Some e \<Rightarrow> startup_failed s2
                    | None \<Rightarrow>
                        (case newInputContext env of
                           Inl e \<Rightarrow> startup_failed s2
                         | Inr inAudioCtx \<Rightarrow>
                             (case newOutputContext env of
                                Inl e \<Rightarrow> startup_failed s2
                              | Inr outAudioCtx \<Rightarrow>
                                  s2\<lparr>inputAudioContextRef := Some inAudioCtx,
                                     outputAudioContextRef := Some outAudioCtx,
                                     sessionRef := Some (connect env)\<rparr>)))))"

text \<open>
  A server message as far as \<^verbatim>\<open>onmessage\<close> reads it: a part is its
  \<^verbatim>\<open>inlineData?.data\<close>, a content is its optional list of parts.
\<close>

type_synonym Part = "jsstring option"
type_synonym Content = "Part list option"

record ServerContent =
  modelTurn :: "Content option"
  turnComplete :: bool
  interrupted :: bool

type_synonym LiveServerMessage = "ServerContent option"

definition has_modelTurn :: "LiveServerMessage \<Rightarrow> bool" where
  "has_modelTurn message =
     (case message of None \<Rightarrow> False | Some sc \<Rightarrow> modelTurn sc \<noteq> None)"

definition has_turnComplete :: "LiveServerMessage \<Rightarrow> bool" where
  "has_turnComplete message =
     (case message of None \<Rightarrow> False | Some sc \<Rightarrow> turnComplete sc)"

definition has_interrupted :: "LiveServerMessage \<Rightarrow> bool" where
  "has_interrupted message =
     (case message of None \<Rightarrow> False | Some sc \<Rightarrow> interrupted sc)"

text \<open>
  \<^verbatim>\<open>message.serverContent?.modelTurn?.parts[0]?.inlineData?.data\<close>: indexing \<^verbatim>\<open>parts\<close> is
  not guarded, so a model turn without parts throws \<^verbatim>\<open>TypeError\<close>.
\<close>

definition base64Audio_of :: "LiveServerMessage \<Rightarrow> exception + jsstring option" where
  "base64Audio_of message =
     (case message of
        None \<Rightarrow> Inr None
      | Some sc \<Rightarrow>
          (case modelTurn sc of
             None \<Rightarrow> Inr None
           | Some None \<Rightarrow> Inl TypeError
           | Some (Some []) \<Rightarrow> Inr None
           | Some (Some (part # _)) \<Rightarrow> Inr part))"

text \<open>\<^verbatim>\<open>Set.add\<close> and \<^verbatim>\<open>Set.delete\<close> on the list of source nodes.\<close>

definition set_add :: "'a \<Rightarrow> 'a list \<Rightarrow> 'a list" where
  "set_add x xs = (if x \<in> set xs then xs else xs @ [x])"

definition set_delete :: "'a \<Rightarrow> 'a list \<Rightarrow> 'a list" where
  "set_delete x xs = filter (\<lambda>y. y \<noteq> x) xs"

text \<open>
  Lines 322-335 of \<^verbatim>\<open>onmessage\<close>: the scheduling of one audio chunk on the output context,
  whose clock reads \<open>currentTime\<close>. An empty string is falsy and skips the block. The
  cursor is raised to the clock before the chunk is decoded, and an exception from
  decoding leaves it so.
\<close>

definition play_audio ::
  "AudioContext \<Rightarrow> real \<Rightarrow> jsstring option \<Rightarrow> App \<Rightarrow> App \<times> exception option" where
  "play_audio outAudioCtx currentTime base64Audio s =
     (case base64Audio of
        None \<Rightarrow> (s, None)
      | Some text \<Rightarrow>
          if text = [] then (s, None)
          else
            (let s1 = s\<lparr>nextStartTimeRef := max (nextStartTimeRef s) currentTime\<rparr>
             in case decode text of
                  Inl e \<Rightarrow> (s1, Some e)
                | Inr bytes \<Rightarrow>
                    (case decodeAudioData bytes outAudioCtx 24000 1 of
                       Inl e \<Rightarrow> (s1, Some e)
                     | Inr audioBuffer \<Rightarrow>
                         (let source = created s1;
                              s2 = s1\<lparr>created := Suc source,
                                      effects := effects s1
                                        @ [SourceStart source (nextStartTimeRef s1)]\<rparr>;
                              s3 = s2\<lparr>nextStartTimeRef :=
                                        nextStartTimeRef s2 + duration audioBuffer\<rparr>
                          in (s3\<lparr>sourcesRef := set_add source (sourcesRef s3)\<rparr>, None)))))"

text \<open>Lines 337-344 of \<^verbatim>\<open>onmessage\<close>.\<close>

definition interrupt :: "App \<Rightarrow> App" where
  "interrupt s =
     (let s1 = s\<lparr>effects := effects s @ map SourceStop (sourcesRef s)\<rparr>
      in s1\<lparr>sourcesRef := [], nextStartTimeRef := 0, liveStatus := LISTENING\<rparr>)"

text \<open>
  \<^verbatim>\<open>onmessage\<close> (lines 314-345). The handler is asynchronous; its single suspension
  resumes before the next event is delivered, so it is taken as one step. It returns the
  state it leaves and the exception that ended it, if any: what it did before throwing
  stays done.
\<close>

definition onmessage ::
  "AudioContext \<Rightarrow> real \<Rightarrow> LiveServerMessage \<Rightarrow> App \<Rightarrow> App \<times> exception option" where
  "onmessage outAudioCtx currentTime message s =
     (let s1 = (if has_modelTurn message then s\<lparr>liveStatus := SPEAKING\<rparr>
                else if has_turnComplete message then s\<lparr>liveStatus := LISTENING\<rparr>
                else s)
      in case base64Audio_of message of
           Inl e \<Rightarrow> (s1, Some e)
         | Inr base64Audio \<Rightarrow>
             (case play_audio outAudioCtx currentTime base64Audio s1 of
                (s2, Some e) \<Rightarrow> (s2, Some e)
              | (s2, None) \<Rightarrow>
                  if has_interrupted message then (interrupt s2, None) else (s2, None)))"

text \<open>The \<^verbatim>\<open>onended\<close> handler of a source node (lines 331-334).\<close>

definition onended :: "AudioBufferSourceNode \<Rightarrow> App \<Rightarrow> App" where
  "onended source s =
     (let s1 = s\<lparr>sourcesRef := set_delete source (sourcesRef s)\<rparr>
      in if length (sourcesRef s1) = 0 then s1\<lparr>liveStatus := LISTENING\<rparr> else s1)"

definition onerror :: "App \<Rightarrow> App" where
  "onerror s = stopListening s"

definition onclose :: "App \<Rightarrow> App" where
  "onclose s = s\<lparr>isListening := False, liveStatus := IDLE\<rparr>"

text \<open>The events of an open session and the runs they produce.\<close>

datatype event =
    Message real LiveServerMessage
  | Ended AudioBufferSourceNode
  | Errored
  | Closed

fun step :: "AudioContext \<Rightarrow> App \<Rightarrow> event \<Rightarrow> App" where
  "step outAudioCtx s (Message currentTime message) =
     fst (onmessage outAudioCtx currentTime message s)"
| "step outAudioCtx s (Ended source) = onended source s"
| "step outAudioCtx s Errored = onerror s"
| "step outAudioCtx s Closed = onclose s"

definition run :: "AudioContext \<Rightarrow> App \<Rightarrow> event list \<Rightarrow> App" where
  "run outAudioCtx s events = foldl (step outAudioCtx) s events"

text \<open>The state of the component when it is mounted.\<close>

definition initial :: App where
  "initial = \<lparr>isListening = False, liveStatus = IDLE, error = None,
     inputAudioContextRef = None, outputAudioContextRef = None, nextStartTimeRef = 0,
     sourcesRef = [], streamRef = None, sessionRef = None, created = 0, effects = []\<rparr>"

section \<open>Concrete sessions\<close>

text \<open>
  Inputs on which the theorems below are instantiated: two audio contexts, platform
  answers for a start that succeeds and one the user declines, the state after a
  successful start, states with one and two buffers playing, a chunk of two silent
  samples, a text that is not a base64 encoding, and messages: one with audio, one with
  the turn-complete marker, one with the interrupted marker alone, and two that carry
  the interrupted marker together with a model turn that cannot be played.
\<close>

definition ctx16k :: AudioContext where
  "ctx16k = \<lparr>context_id = 0, maxChannels = 32, minSampleRate = 8000, maxSampleRate = 96000\<rparr>"

definition ctx24k :: AudioContext where
  "ctx24k = \<lparr>context_id = 1, maxChannels = 32, minSampleRate = 8000, maxSampleRate = 96000\<rparr>"

definition startup_ok :: Startup where
  "startup_ok = \<lparr>getUserMedia = Inr [0], newGoogleGenAI = None, newInputContext = Inr ctx16k,
     newOutputContext = Inr ctx24k, connect = 0\<rparr>"

definition startup_denied :: Startup where
  "startup_denied = startup_ok\<lparr>getUserMedia := Inl NotAllowedError\<rparr>"

definition started :: App where
  "started = \<lparr>isListening = True, liveStatus = LISTENING, error = None,
     inputAudioContextRef = Some ctx16k, outputAudioContextRef = Some ctx24k,
     nextStartTimeRef = 0, sourcesRef = [], streamRef = Some [0], sessionRef = Some 0,
     created = 0, effects = []\<rparr>"

definition two_playing :: App where
  "two_playing = started\<lparr>liveStatus := SPEAKING, nextStartTimeRef := 6001 / 6000,
     sourcesRef := [0, 1], created := 2,
     effects := [SourceStart 0 1, SourceStart 1 (12001 / 12000)]\<rparr>"

definition silence :: jsstring where
  "silence = map of_char ''AAAAAA==''"

definition audio_message :: LiveServerMessage where
  "audio_message = Some \<lparr>modelTurn = Some (Some [Some silence]), turnComplete = False,
     interrupted = False\<rparr>"

definition turn_complete_message :: LiveServerMessage where
  "turn_complete_message = Some \<lparr>modelTurn = None, turnComplete = True, interrupted = False\<rparr>"





definition one_playing :: App where
  "one_playing = started\<lparr>liveStatus := SPEAKING, nextStartTimeRef := 12001 / 12000,
     sourcesRef := [0], created := 1, effects := [SourceStart 0 1]\<rparr>"

text \<open>
  The order of teardown in the words of the specification: stop every active playback
  buffer, close the output and input audio devices, stop and release the capture device,
  close the session handle. It is compared with what \<^verbatim>\<open>stopListening\<close> does.
\<close>

definition spec_teardown :: "App \<Rightarrow> effect list" where
  "spec_teardown s =
     map SourceStop (sourcesRef s)
     @ (case outputAudioContextRef s of None \<Rightarrow> [] | Some ctx \<Rightarrow> [ContextClose ctx])
     @ (case inputAudioContextRef s of None \<Rightarrow> [] | Some ctx \<Rightarrow> [ContextClose ctx])
     @ (case streamRef s of None \<Rightarrow> [] | Some stream \<Rightarrow> map TrackStop stream)
     @ (case sessionRef s of None \<Rightarrow> [] | Some session \<Rightarrow> [SessionClose session])"

section \<open>Properties of the decision history\<close>

lemma saveAll_append:
  "saveAll history (ds @ es) = saveAll (saveAll history ds) es"
  by (induction ds arbitrary: history) simp_all

lemma take_take_cons:
  "take (Suc n) (x # take (Suc n) ys) = take (Suc n) (x # ys)"
  by (simp add: min_def)

lemma saveAll_nonempty:
  "saveAll history (d # ds) = take 50 (rev (d # ds) @ history)"
proof (induction ds arbitrary: d history rule: rev_induct)
  case Nil
  show ?case by (simp add: saveToHistory_def)
next
  case (snoc e es)
  have "saveAll history (d # es @ [e]) = saveToHistory e (saveAll history (d # es))"
    using saveAll_append [of history "d # es" "[e]"] by simp
  also have "\<dots> = take 50 (e # take 50 (rev (d # es) @ history))"
    by (simp only: snoc.IH saveToHistory_def)
  also have "\<dots> = take 50 (e # rev (d # es) @ history)"
    using take_take_cons [of 49 e "rev (d # es) @ history"] by simp
  finally show ?case by simp
qed

text \<open>
  C10. After any non-empty sequence of saves, from any earlier history, the stored history
  has at most 50 entries, begins with the decision saved last, and is the list of the saved
  decisions, newest first, followed by the earlier history, cut to its first 50 elements.
\<close>

theorem saveToHistory_bounded_newest_first:
  "length (saveAll history (ds @ [d])) \<le> 50
   \<and> hd (saveAll history (ds @ [d])) = d
   \<and> saveAll history (ds @ [d]) = take 50 (d # rev ds @ history)"
proof -
  have eq: "saveAll history (ds @ [d]) = take 50 (d # rev ds @ history)"
  proof (cases ds)
    case Nil
    then show ?thesis by (simp add: saveToHistory_def)
  next
    case (Cons e es)
    then show ?thesis
      using saveAll_nonempty [of history e "es @ [d]"] by simp
  qed
  show ?thesis unfolding eq by simp
qed

section \<open>Properties of the codec\<close>

lemma div_digit: "z < k \<Longrightarrow> (w * k + z) div k = (w::nat)"
  by simp

lemma mod_digit: "z < k \<Longrightarrow> (w * k + z) mod k = (z::nat)"
  by simp

lemma split3:
  assumes "y < 256" "z < 256"
  shows "((x * 256 + y) * 256 + z) div 65536 = (x::nat)"
    and "((x * 256 + y) * 256 + z) div 256 mod 256 = y"
    and "((x * 256 + y) * 256 + z) mod 256 = z"
proof -
  let ?n = "(x * 256 + y) * 256 + z"
  have d: "?n div 256 = x * 256 + y" using assms(2) by (rule div_digit)
  have "?n div 65536 = ?n div 256 div 256" by (simp add: div_mult2_eq)
  also have "\<dots> = x" unfolding d using assms(1) by (rule div_digit)
  finally show "?n div 65536 = x" .
  show "?n div 256 mod 256 = y" unfolding d using assms(1) by (rule mod_digit)
  show "?n mod 256 = z" using assms(2) by (rule mod_digit)
qed

lemma recompose4:
  "((n div 262144 * 64 + n div 4096 mod 64) * 64 + n div 64 mod 64) * 64 + n mod 64 = (n::nat)"
proof -
  have a: "n div 4096 = n div 64 div 64" by (simp add: div_mult2_eq)
  have b: "n div 262144 = n div 64 div 64 div 64" by (simp add: div_mult2_eq)
  show ?thesis unfolding a b by (simp add: div_mult_mod_eq)
qed

lemma recompose3: "(n div 4096 * 64 + n div 64 mod 64) * 64 + n mod 64 = (n::nat)"
proof -
  have a: "n div 4096 = n div 64 div 64" by (simp add: div_mult2_eq)
  show ?thesis unfolding a by (simp add: div_mult_mod_eq)
qed

lemma unat_byte: "unat (a :: 8 word) < 256"
  using unsigned_less [of a, where 'a = nat] by simp

lemma group3:
  fixes a b c :: "8 word"
  assumes n: "n = (unat a * 256 + unat b) * 256 + unat c"
  shows "decode_groups (n div 262144 # n div 4096 mod 64 # n div 64 mod 64 # n mod 64 # rest)
         = a # b # c # decode_groups rest"
proof -
  have "n div 65536 = unat a" "n div 256 mod 256 = unat b" "n mod 256 = unat c"
    unfolding n using split3 [OF unat_byte unat_byte] by blast+
  then have "(let m = n in [of_nat (m div 65536), of_nat (m div 256 mod 256), of_nat (m mod 256)])
      = [a, b, c]" by (simp add: Let_def)
  then show ?thesis by (simp only: decode_groups.simps recompose4 append.simps)
qed

lemma group2:
  fixes a b :: "8 word"
  assumes n: "n = (unat a * 256 + unat b) * 4"
  shows "decode_groups [n div 4096, n div 64 mod 64, n mod 64] = [a, b]"
proof -
  have "n div 4 = unat a * 256 + unat b" by (simp add: n)
  moreover have "(unat a * 256 + unat b) div 256 = unat a"
    "(unat a * 256 + unat b) mod 256 = unat b"
    using unat_byte [of b] by simp_all
  ultimately have "(let m = n div 4 in [of_nat (m div 256), of_nat (m mod 256)]) = [a, b]"
    by (simp add: Let_def)
  then show ?thesis by (simp only: decode_groups.simps recompose3)
qed

lemma group1:
  fixes a :: "8 word"
  assumes n: "n = unat a * 16"
  shows "decode_groups [n div 64, n mod 64] = [a]"
proof -
  have "n div 64 * 64 + n mod 64 = n" by simp
  moreover have "n div 16 = unat a" by (simp add: n)
  ultimately have "(let m = (n div 64 * 64 + n mod 64) div 16 in [of_nat m]) = [a]"
    by (simp add: Let_def)
  then show ?thesis by (simp only: decode_groups.simps)
qed

lemma decode_groups_sextets: "decode_groups (sextets bytes) = bytes"
proof (induction bytes rule: sextets.induct)
  case 1
  show ?case by simp
next
  case (2 a)
  show ?case using group1 [OF refl, of a] by (simp add: Let_def)
next
  case (3 a b)
  show ?case using group2 [OF refl, of a b] by (simp add: Let_def)
next
  case (4 a b c rest)
  show ?case using group3 [OF refl, of a b c "sextets rest"] 4 by (simp add: Let_def)
qed

lemma sextets_lt_64: "s \<in> set (sextets bytes) \<Longrightarrow> s < 64"
proof (induction bytes rule: sextets.induct)
  case 1
  then show ?case by simp
next
  case (2 a)
  then show ?case using unat_byte [of a] by (auto simp: Let_def)
next
  case (3 a b)
  then show ?case using unat_byte [of a] unat_byte [of b] by (auto simp: Let_def)
next
  case (4 a b c rest)
  have "(unat a * 256 + unat b) * 256 + unat c < 16777216"
    using unat_byte [of a] unat_byte [of b] unat_byte [of c] by simp
  then have "((unat a * 256 + unat b) * 256 + unat c) div 262144 < 64" by simp
  with 4 show ?case by (auto simp: Let_def)
qed

lemma length_sextets:
  "length (sextets bytes) = 4 * (length bytes div 3) + (if length bytes mod 3 = 0 then 0 else length bytes mod 3 + 1)"
  by (induction bytes rule: sextets.induct) (simp_all add: Let_def)

lemma index_of_nth:
  "distinct xs \<Longrightarrow> n < length xs \<Longrightarrow> index_of (xs ! n) xs = Some n"
proof (induction xs arbitrary: n)
  case Nil
  then show ?case by simp
next
  case (Cons y ys)
  show ?case
  proof (cases n)
    case 0
    then show ?thesis by simp
  next
    case (Suc m)
    with Cons.prems have "ys ! m \<in> set ys" "y \<notin> set ys" by simp_all
    then have "ys ! m \<noteq> y" by blast
    with Suc Cons show ?thesis by simp
  qed
qed

lemma length_base64_alphabet: "length base64_alphabet = 64"
  by (simp add: base64_alphabet_def)

lemma distinct_base64_alphabet: "distinct base64_alphabet"
  by (simp add: base64_alphabet_def)

lemma pad_not_in_alphabet: "pad_char \<notin> set base64_alphabet"
  by (simp add: base64_alphabet_def pad_char_def)

lemma alphabet_not_whitespace: "c \<in> set base64_alphabet \<Longrightarrow> \<not> is_ascii_whitespace c"
  by (auto simp: base64_alphabet_def is_ascii_whitespace_def)

lemma pad_not_whitespace: "\<not> is_ascii_whitespace pad_char"
  by (simp add: pad_char_def is_ascii_whitespace_def)

lemma body_in_alphabet: "c \<in> set (body bytes) \<Longrightarrow> c \<in> set base64_alphabet"
  using sextets_lt_64 [of _ bytes] by (auto simp: body_def length_base64_alphabet)

lemma those_positions:
  "those (map (\<lambda>c. index_of c base64_alphabet) (body bytes)) = Some (sextets bytes)"
proof -
  have "\<forall>s \<in> set ss. s < 64 \<Longrightarrow>
        those (map (\<lambda>c. index_of c base64_alphabet) (map (\<lambda>s. base64_alphabet ! s) ss)) = Some ss" for ss
    by (induction ss)
       (simp_all add: index_of_nth distinct_base64_alphabet length_base64_alphabet)
  then show ?thesis using sextets_lt_64 by (simp add: body_def)
qed

lemma strip_padding_body:
  assumes "k \<le> 2"
  shows "strip_padding (body bytes @ replicate k pad_char) = body bytes"
proof -
  have last_ok: "body bytes \<noteq> [] \<Longrightarrow> last (body bytes) \<noteq> pad_char"
    using body_in_alphabet [of "last (body bytes)" bytes] pad_not_in_alphabet by auto
  consider "k = 0" | "k = 1" | "k = 2" using assms by linarith
  then show ?thesis
  proof cases
    case 1
    show ?thesis
    proof (cases "rev (body bytes)")
      case Nil
      then show ?thesis using 1 by (simp add: strip_padding_def)
    next
      case (Cons p r)
      then have "p \<noteq> pad_char" using last_ok by (metis last_rev hd_rev list.sel(1) rev_is_Nil_conv list.distinct(1) rev_rev_ident)
      with Cons 1 show ?thesis by (simp add: strip_padding_def split: list.splits)
    qed
  next
    case 2
    show ?thesis
    proof (cases "rev (body bytes)")
      case Nil
      then show ?thesis using 2 by (simp add: strip_padding_def)
    next
      case (Cons p r)
      then have "p \<noteq> pad_char" using last_ok by (metis last_rev hd_rev list.sel(1) rev_is_Nil_conv list.distinct(1) rev_rev_ident)
      moreover have "body bytes = rev (p # r)" using Cons by (metis rev_rev_ident)
      ultimately show ?thesis using Cons 2 by (simp add: strip_padding_def)
    qed
  next
    case 3
    then have "rev (body bytes @ replicate k pad_char) = pad_char # pad_char # rev (body bytes)"
      by (simp add: numeral_2_eq_2)
    then show ?thesis by (simp add: strip_padding_def)
  qed
qed

lemma base64_encode_body:
  "base64_encode bytes = body bytes @ replicate ((3 - length bytes mod 3) mod 3) pad_char"
  by (simp add: base64_encode_def body_def)

lemma length_base64_encode: "length (base64_encode bytes) mod 4 = 0"
proof -
  have "length bytes mod 3 = 0 \<or> length bytes mod 3 = 1 \<or> length bytes mod 3 = 2"
    by linarith
  then show ?thesis
    by (auto simp: base64_encode_body body_def length_sextets)
qed

lemma length_body: "length (body bytes) mod 4 \<noteq> Suc 0"
proof -
  have "length bytes mod 3 = 0 \<or> length bytes mod 3 = 1 \<or> length bytes mod 3 = 2"
    by linarith
  then show ?thesis
    by (auto simp: body_def length_sextets)
qed

lemma no_whitespace_encoded:
  "filter (\<lambda>c. \<not> is_ascii_whitespace c) (base64_encode bytes) = base64_encode bytes"
proof -
  have "\<forall>c \<in> set (base64_encode bytes). \<not> is_ascii_whitespace c"
    using body_in_alphabet alphabet_not_whitespace pad_not_whitespace
    by (auto simp: base64_encode_body)
  then show ?thesis by simp
qed

lemma ucast_byte_roundtrip: "(ucast (ucast (a :: 8 word) :: 16 word) :: 8 word) = a"
  by (simp add: ucast_down_ucast_id is_down)

lemma ucast_byte_le: "\<not> 255 < (ucast (a :: 8 word) :: 16 word)"
proof -
  have "unat (ucast a :: 16 word) = unat a"
    using unat_byte [of a] by (simp add: unsigned_ucast_eq take_bit_nat_eq_self)
  then show ?thesis using unat_byte [of a] by (simp add: word_less_nat_alt)
qed

lemma atob_base64_encode: "atob (base64_encode bytes) = Inr (map ucast bytes)"
proof -
  have strip: "strip_padding (base64_encode bytes) = body bytes"
    unfolding base64_encode_body by (rule strip_padding_body) simp
  show ?thesis
    by (simp add: atob_def Let_def no_whitespace_encoded length_base64_encode strip
        length_body those_positions decode_groups_sextets)
qed

lemma btoa_bytes: "btoa (map ucast (bytes :: Uint8Array)) = Inr (base64_encode bytes)"
proof -
  have "\<not> list_ex (\<lambda>c. 255 < c) (map ucast bytes :: jsstring)"
    by (simp add: list_ex_iff ucast_byte_le)
  moreover have "map ucast (map ucast bytes :: jsstring) = bytes"
    by (simp add: ucast_byte_roundtrip comp_def)
  ultimately show ?thesis by (simp add: btoa_def)
qed

text \<open>The model of the platform functions on short inputs, well-formed and not.\<close>

lemma replicate_two: "replicate 2 x = [x, x]"
  by (simp add: numeral_2_eq_2)

lemma encode_examples:
  "encode [0x4D, 0x61, 0x6E] = Inr (map of_char ''TWFu'')"
  "encode [0x4D, 0x61] = Inr (map of_char ''TWE='')"
  "encode [0x4D] = Inr (map of_char ''TQ=='')"
  "encode [] = Inr []"
  by (simp_all add: encode_def btoa_def base64_encode_def base64_alphabet_def pad_char_def
      replicate_two)

lemma decode_examples:
  "decode (map of_char ''TWFu'') = Inr [0x4D, 0x61, 0x6E]"
  "decode (map of_char ''TW Fu TQ'') = Inr [0x4D, 0x61, 0x6E, 0x4D]"
  "decode (map of_char ''TWFuT'') = Inl InvalidCharacterError"
  "decode (map of_char ''TW=u'') = Inl InvalidCharacterError"
  by (simp_all add: decode_def atob_def base64_alphabet_def pad_char_def strip_padding_def
      is_ascii_whitespace_def)

text \<open>
  C4. For every byte sequence, \<^verbatim>\<open>encode\<close> returns a text (it never throws), and \<^verbatim>\<open>decode\<close>
  of that text returns the byte sequence again.
\<close>

theorem decode_encode_roundtrip:
  "\<exists>text. encode bytes = Inr text \<and> decode text = Inr bytes"
proof -
  have "encode bytes = Inr (base64_encode bytes)"
    by (simp add: encode_def btoa_bytes)
  moreover have "decode (base64_encode bytes) = Inr bytes"
    by (simp add: decode_def atob_base64_encode ucast_byte_roundtrip comp_def)
  ultimately show ?thesis by blast
qed

section \<open>Properties of the audio conversion and the session\<close>

lemma foldl_update_length:
  "length (foldl (\<lambda>ys i. ys[i := g i (ys ! i)]) xs is) = length xs"
  by (induction "is" arbitrary: xs) simp_all

lemma foldl_update_nth:
  "j < length xs \<Longrightarrow>
   foldl (\<lambda>ys i. ys[i := g i (ys ! i)]) xs [0..<m] ! j
     = (if j < m then g j (xs ! j) else xs ! j)"
proof (induction m)
  case 0
  show ?case by simp
next
  case (Suc m)
  let ?ys = "foldl (\<lambda>ys i. ys[i := g i (ys ! i)]) xs [0..<m]"
  have len: "length ?ys = length xs" by (rule foldl_update_length)
  have step: "foldl (\<lambda>ys i. ys[i := g i (ys ! i)]) xs [0..<Suc m] = ?ys[m := g m (?ys ! m)]"
    by simp
  show ?case
  proof (cases "j = m")
    case True
    with Suc len show ?thesis unfolding step by simp
  next
    case False
    with Suc len show ?thesis unfolding step by auto
  qed
qed

lemma foldl_update_eq_map:
  assumes "length xs = n" "n \<le> m"
  shows "foldl (\<lambda>ys i. ys[i := g i (ys ! i)]) xs [0..<m] = map (\<lambda>i. g i (xs ! i)) [0..<n]"
proof (rule nth_equalityI)
  show "length (foldl (\<lambda>ys i. ys[i := g i (ys ! i)]) xs [0..<m]) = length (map (\<lambda>i. g i (xs ! i)) [0..<n])"
    using assms by (simp add: foldl_update_length)
next
  fix j assume "j < length (foldl (\<lambda>ys i. ys[i := g i (ys ! i)]) xs [0..<m])"
  then have "j < n" using assms by (simp add: foldl_update_length)
  then show "foldl (\<lambda>ys i. ys[i := g i (ys ! i)]) xs [0..<m] ! j = map (\<lambda>i. g i (xs ! i)) [0..<n] ! j"
    using assms foldl_update_nth [of j xs g m] by simp
qed

lemma frame_index_in_range:
  assumes "i < len div nc" "c < nc"
  shows "i * nc + c < (len::nat)"
proof -
  have "i * nc + c < Suc i * nc" using assms(2) by simp
  also have "\<dots> \<le> (len div nc) * nc" using assms(1) by (simp add: Suc_leI del: mult_Suc)
  also have "\<dots> \<le> len" by simp
  finally show ?thesis .
qed

lemma fill_channel_eq:
  assumes "length cd0 = length d div nc" "0 < nc" "channel < nc"
  shows "fill_channel d nc (real (length d) / real nc) channel cd0
         = map (\<lambda>i. Finite (real_of_int (sint (d ! (i * nc + channel))) / 32768))
             [0..<length d div nc]"
proof -
  let ?n = "length d div nc"
  have "real ?n \<le> real (length d) / real nc"
    using assms(2) by (metis floor_divide_of_nat_eq of_int_floor_le of_int_of_nat_eq)
  then have "?n \<le> nat \<lceil>real (length d) / real nc\<rceil>" by linarith
  then have "fill_channel d nc (real (length d) / real nc) channel cd0
      = map (\<lambda>i. sample_at d (i * nc + channel)) [0..<?n]"
    unfolding fill_channel_def
    using foldl_update_eq_map [of cd0 ?n _ "\<lambda>i y. sample_at d (i * nc + channel)"] assms(1)
    by simp
  also have "\<dots> = map (\<lambda>i. Finite (real_of_int (sint (d ! (i * nc + channel))) / 32768)) [0..<?n]"
    using frame_index_in_range [of _ "length d" nc channel] assms(3)
    by (simp add: sample_at_def)
  finally show ?thesis .
qed

lemma decodeAudioData_returns:
  assumes "new_Int16Array data = Inr d"
    and "0 < nc" "nc \<le> maxChannels ctx" "minSampleRate ctx \<le> rate" "rate \<le> maxSampleRate ctx"
    and "nc \<le> length d"
  shows "decodeAudioData data ctx rate nc =
         Inr \<lparr>sampleRate = rate, frames = length d div nc,
              channelData =
                map (\<lambda>channel.
                       map (\<lambda>i. Finite (real_of_int (sint (d ! (i * nc + channel))) / 32768))
                         [0..<length d div nc])
                  [0..<nc]\<rparr>"
proof -
  let ?n = "length d div nc"
  have n: "nat \<lfloor>real (length d) / real nc\<rfloor> = ?n"
    by (simp add: floor_divide_of_nat_eq)
  have pos: "?n \<noteq> 0" using assms(2,6) by (simp add: div_eq_0_iff)
  have cb: "createBuffer ctx nc (real (length d) / real nc) rate
      = Inr \<lparr>sampleRate = rate, frames = ?n, channelData = replicate nc (replicate ?n (Finite 0))\<rparr>"
    using assms(2-5) pos by (simp add: createBuffer_def n Let_def)
  have "foldl (\<lambda>cs channel. cs[channel := fill_channel d nc (real (length d) / real nc) channel (cs ! channel)])
          (replicate nc (replicate ?n (Finite 0))) [0..<nc]
      = map (\<lambda>channel. fill_channel d nc (real (length d) / real nc) channel
                          (replicate nc (replicate ?n (Finite 0)) ! channel)) [0..<nc]"
    by (rule foldl_update_eq_map) simp_all
  also have "\<dots> = map (\<lambda>channel. map (\<lambda>i. Finite (real_of_int (sint (d ! (i * nc + channel))) / 32768)) [0..<?n]) [0..<nc]"
    using assms(2) by (simp add: fill_channel_eq)
  finally show ?thesis
    by (simp add: decodeAudioData_def assms(1) cb Let_def)
qed

lemma sample_range:
  "- 1 \<le> real_of_int (sint (w :: 16 word)) / 32768 \<and> real_of_int (sint w) / 32768 < 1"
proof -
  have scaled: "- 32768 \<le> k \<Longrightarrow> k < 32768 \<Longrightarrow>
      - 1 \<le> real_of_int k / 32768 \<and> real_of_int k / 32768 < 1" for k
    by simp
  have "- 32768 \<le> sint w" "sint w < 32768"
    using sint_ge [of w] sint_lt [of w] by simp_all
  then show ?thesis by (rule scaled)
qed

lemma sint_word_of_int_16:
  "sint (word_of_int k :: 16 word) = (k + 32768) mod 65536 - 32768"
  by (simp add: sint_sbintrunc' signed_take_bit_eq_take_bit_shift take_bit_eq_mod)

lemma floatToPcm16_nth:
  assumes "i < length data" "data ! i = Finite f"
  shows "sint (floatToPcm16 data ! i) = (trunc (f * 32768) + 32768) mod 65536 - 32768"
  using assms by (simp add: floatToPcm16_def ToInt16_def times_def sint_word_of_int_16)

lemma stopListening_result:
  "stopListening s =
     s\<lparr>isListening := False, liveStatus := IDLE,
       inputAudioContextRef := None, outputAudioContextRef := None,
       nextStartTimeRef := 0, sourcesRef := [], streamRef := None, sessionRef := None,
       effects := effects s
         @ (case streamRef s of None \<Rightarrow> [] | Some stream \<Rightarrow> map TrackStop stream)
         @ (case inputAudioContextRef s of None \<Rightarrow> [] | Some ctx \<Rightarrow> [ContextClose ctx])
         @ (case outputAudioContextRef s of None \<Rightarrow> [] | Some ctx \<Rightarrow> [ContextClose ctx])
         @ map SourceStop (sourcesRef s)
         @ (case sessionRef s of None \<Rightarrow> [] | Some session \<Rightarrow> [SessionClose session])\<rparr>"
  by (simp add: stopListening_def Let_def split: option.splits)

lemma stopListening_idem: "stopListening (stopListening s) = stopListening s"
  by (simp add: stopListening_result [of "stopListening s"]) (simp add: stopListening_result)

lemma toggle_failure:
  assumes "\<not> isListening s" "getUserMedia env = Inl e"
  shows "toggleVoiceInput env s =
         s\<lparr>isListening := False, liveStatus := IDLE, error := Some ''Microphone access is needed.''\<rparr>"
  using assms by (simp add: toggleVoiceInput_def startup_failed_def)

lemma toggle_started: "toggleVoiceInput startup_ok initial = started"
  by (simp add: toggleVoiceInput_def startup_ok_def initial_def started_def)

lemma decode_silence: "decode silence = Inr [0, 0, 0, 0]"
  by (simp add: silence_def decode_def atob_def base64_alphabet_def pad_char_def
      strip_padding_def is_ascii_whitespace_def)

lemma new_Int16Array_silence: "new_Int16Array [0, 0, 0, 0] = Inr [0, 0]"
  by (simp add: new_Int16Array_def)

lemma decodeAudioData_silence:
  "decodeAudioData [0, 0, 0, 0] ctx24k 24000 1
   = Inr \<lparr>sampleRate = 24000, frames = 2, channelData = [[Finite 0, Finite 0]]\<rparr>"
proof -
  have "[0..<2] = [0, Suc 0]" by (simp add: upt_rec)
  then show ?thesis
    using decodeAudioData_returns [OF new_Int16Array_silence, of 1 ctx24k 24000]
    by (simp add: ctx24k_def)
qed

lemma new_Int16Array_three: "new_Int16Array [1, 0, 2, 0, 3, 0] = Inr [1, 2, 3]"
  by (simp add: new_Int16Array_def)

lemma decodeAudioData_three:
  "decodeAudioData [1, 0, 2, 0, 3, 0] ctx24k 24000 2
   = Inr \<lparr>sampleRate = 24000, frames = 1,
          channelData = [[Finite (1 / 32768)], [Finite (2 / 32768)]]\<rparr>"
proof -
  have "[0..<2] = [0, Suc 0]" by (simp add: upt_rec)
  moreover have "(3::nat) div 2 = 1" by simp
  ultimately show ?thesis
    using decodeAudioData_returns [OF new_Int16Array_three, of 2 ctx24k 24000]
    by (simp add: ctx24k_def)
qed

lemma play_audio_scheduled:
  assumes "text \<noteq> []" "decode text = Inr bytes"
    and "decodeAudioData bytes ctx 24000 1 = Inr buffer"
  shows "play_audio ctx t (Some text) s =
         (s\<lparr>nextStartTimeRef := max (nextStartTimeRef s) t + duration buffer,
            created := Suc (created s),
            effects := effects s @ [SourceStart (created s) (max (nextStartTimeRef s) t)],
            sourcesRef := set_add (created s) (sourcesRef s)\<rparr>, None)"
  using assms by (simp add: play_audio_def Let_def)


lemma onmessage_scheduled:
  assumes "base64Audio_of m = Inr (Some text)" "text \<noteq> []" "decode text = Inr bytes"
    and "decodeAudioData bytes ctx 24000 1 = Inr buffer" "\<not> has_interrupted m"
  shows "onmessage ctx t m s =
         (s\<lparr>liveStatus := SPEAKING,
            nextStartTimeRef := max (nextStartTimeRef s) t + duration buffer,
            created := Suc (created s),
            effects := effects s @ [SourceStart (created s) (max (nextStartTimeRef s) t)],
            sourcesRef := set_add (created s) (sourcesRef s)\<rparr>, None)"
proof -
  have "has_modelTurn m"
    using assms(1) by (auto simp: base64Audio_of_def has_modelTurn_def split: option.splits)
  then show ?thesis
    using assms by (simp add: onmessage_def play_audio_scheduled)
qed

text \<open>
  C2. An audio chunk that decodes to a buffer is started at the larger of the cursor and
  the clock of the output context, and the cursor is then that start time plus the
  duration of the buffer. Hence, when two messages with audio arrive one after the other
  with no interruption, and the clock at the second arrival is not beyond the cursor, the
  second buffer is started at the start time of the first plus the duration of the first.
\<close>

theorem playback_schedule_gapless:
  assumes "base64Audio_of m1 = Inr (Some text1)" "text1 \<noteq> []" "decode text1 = Inr bytes1"
    and "decodeAudioData bytes1 ctx 24000 1 = Inr buffer1" "\<not> has_interrupted m1"
    and "base64Audio_of m2 = Inr (Some text2)" "text2 \<noteq> []" "decode text2 = Inr bytes2"
    and "decodeAudioData bytes2 ctx 24000 1 = Inr buffer2" "\<not> has_interrupted m2"
    and "t2 \<le> max (nextStartTimeRef s) t1 + duration buffer1"
  shows "play_audio ctx t1 (Some text1) s =
           (s\<lparr>nextStartTimeRef := max (nextStartTimeRef s) t1 + duration buffer1,
              created := Suc (created s),
              effects := effects s @ [SourceStart (created s) (max (nextStartTimeRef s) t1)],
              sourcesRef := set_add (created s) (sourcesRef s)\<rparr>, None)
         \<and> effects (fst (onmessage ctx t2 m2 (fst (onmessage ctx t1 m1 s)))) =
             effects s @ [SourceStart (created s) (max (nextStartTimeRef s) t1),
                          SourceStart (Suc (created s))
                            (max (nextStartTimeRef s) t1 + duration buffer1)]
         \<and> nextStartTimeRef (fst (onmessage ctx t2 m2 (fst (onmessage ctx t1 m1 s)))) =
             max (nextStartTimeRef s) t1 + duration buffer1 + duration buffer2"
proof -
  let ?s1 = "fst (onmessage ctx t1 m1 s)"
  have s1: "onmessage ctx t1 m1 s =
      (s\<lparr>liveStatus := SPEAKING,
         nextStartTimeRef := max (nextStartTimeRef s) t1 + duration buffer1,
         created := Suc (created s),
         effects := effects s @ [SourceStart (created s) (max (nextStartTimeRef s) t1)],
         sourcesRef := set_add (created s) (sourcesRef s)\<rparr>, None)"
    using assms(1-5) by (rule onmessage_scheduled)
  have s2: "onmessage ctx t2 m2 ?s1 =
      (?s1\<lparr>liveStatus := SPEAKING,
         nextStartTimeRef := max (nextStartTimeRef ?s1) t2 + duration buffer2,
         created := Suc (created ?s1),
         effects := effects ?s1 @ [SourceStart (created ?s1) (max (nextStartTimeRef ?s1) t2)],
         sourcesRef := set_add (created ?s1) (sourcesRef ?s1)\<rparr>, None)"
    using assms(6-10) by (rule onmessage_scheduled)
  have cursor: "max (nextStartTimeRef ?s1) t2 = max (nextStartTimeRef s) t1 + duration buffer1"
    using assms(11) by (simp add: s1)
  show ?thesis
    using play_audio_scheduled [OF assms(2-4)] cursor
    by (simp add: s2) (simp add: s1)
qed

lemma base64Audio_of_audio_message: "base64Audio_of audio_message = Inr (Some silence)"
  by (simp add: base64Audio_of_def audio_message_def)

lemma silence_not_empty: "silence \<noteq> []"
  by (simp add: silence_def)

lemma audio_message_not_interrupted: "\<not> has_interrupted audio_message"
  by (simp add: has_interrupted_def audio_message_def)

lemma duration_silence:
  "duration \<lparr>sampleRate = 24000, frames = 2, channelData = [[Finite 0, Finite 0]]\<rparr> = 1 / 12000"
  by (simp add: duration_def)

theorem playback_schedule_gapless_witness:
  "effects (fst (onmessage ctx24k 1 audio_message (fst (onmessage ctx24k 1 audio_message started))))
     = [SourceStart 0 1, SourceStart 1 (1 + 1 / 12000)]
   \<and> nextStartTimeRef
       (fst (onmessage ctx24k 1 audio_message (fst (onmessage ctx24k 1 audio_message started))))
     = 1 + 1 / 12000 + 1 / 12000"
proof -
  have "(1::real) \<le> max (nextStartTimeRef started) 1
      + duration \<lparr>sampleRate = 24000, frames = 2, channelData = [[Finite 0, Finite 0]]\<rparr>"
    by (simp add: duration_silence)
  from playback_schedule_gapless [OF base64Audio_of_audio_message silence_not_empty
      decode_silence decodeAudioData_silence audio_message_not_interrupted
      base64Audio_of_audio_message silence_not_empty decode_silence decodeAudioData_silence
      audio_message_not_interrupted this]
  show ?thesis by (simp add: duration_silence started_def)
qed



lemma play_audio_effects:
  "\<exists>es. effects (fst (play_audio ctx t a s)) = effects s @ es"
  by (auto simp: play_audio_def Let_def split: option.splits sum.splits)

lemma play_audio_sources:
  "set (sourcesRef s) \<subseteq> set (sourcesRef (fst (play_audio ctx t a s)))"
  by (auto simp: play_audio_def Let_def set_add_def split: option.splits sum.splits)

lemma play_audio_liveStatus:
  "liveStatus (fst (play_audio ctx t a s)) = liveStatus s"
  by (auto simp: play_audio_def Let_def split: option.splits sum.splits)








text \<open>
  C6. From every state \<^verbatim>\<open>stopListening\<close> returns, with the status \<^verbatim>\<open>IDLE\<close> and every ref
  released, and its calls are made in this order: stop the tracks of the capture stream,
  close the input context, close the output context, stop every active source node,
  close the session.
\<close>

theorem stopListening_teardown_order:
  "stopListening s =
     s\<lparr>isListening := False, liveStatus := IDLE,
       inputAudioContextRef := None, outputAudioContextRef := None,
       nextStartTimeRef := 0, sourcesRef := [], streamRef := None, sessionRef := None,
       effects := effects s
         @ (case streamRef s of None \<Rightarrow> [] | Some stream \<Rightarrow> map TrackStop stream)
         @ (case inputAudioContextRef s of None \<Rightarrow> [] | Some ctx \<Rightarrow> [ContextClose ctx])
         @ (case outputAudioContextRef s of None \<Rightarrow> [] | Some ctx \<Rightarrow> [ContextClose ctx])
         @ map SourceStop (sourcesRef s)
         @ (case sessionRef s of None \<Rightarrow> [] | Some session \<Rightarrow> [SessionClose session])\<rparr>"
  by (rule stopListening_result)

text \<open>
  With two buffers playing, the capture track is stopped first and the source nodes after
  both contexts are closed, which is not the order the specification gives.
\<close>

theorem stopListening_order_counterexample:
  "effects (stopListening two_playing) =
     effects two_playing
     @ [TrackStop 0, ContextClose ctx16k, ContextClose ctx24k, SourceStop 0, SourceStop 1,
        SessionClose 0]
   \<and> spec_teardown two_playing =
       [SourceStop 0, SourceStop 1, ContextClose ctx24k, ContextClose ctx16k, TrackStop 0,
        SessionClose 0]
   \<and> effects (stopListening two_playing) \<noteq> effects two_playing @ spec_teardown two_playing
   \<and> index_of (TrackStop 0) (effects (stopListening two_playing)) = Some 2
   \<and> index_of (SourceStop 0) (effects (stopListening two_playing)) = Some 5"
  by (simp add: stopListening_result spec_teardown_def two_playing_def started_def
      ctx16k_def ctx24k_def)

text \<open>
  C7. A second call of \<^verbatim>\<open>stopListening\<close> changes nothing: the state is the one the first
  call left, and no call on a device, a node or the session is added.
\<close>

theorem stopListening_idempotent:
  "stopListening (stopListening s) = stopListening s
   \<and> effects (stopListening (stopListening s)) = effects (stopListening s)"
  by (simp add: stopListening_idem)

text \<open>
  C8. When the session is not running and \<^verbatim>\<open>getUserMedia\<close> fails, whatever the exception,
  \<^verbatim>\<open>toggleVoiceInput\<close> acquires nothing, leaves the status \<^verbatim>\<open>IDLE\<close> and the listening flag
  off, and sets the error message shown to the user.
\<close>

theorem failed_start_returns_to_idle:
  assumes "\<not> isListening s" "getUserMedia env = Inl e"
  shows "toggleVoiceInput env s =
         s\<lparr>isListening := False, liveStatus := IDLE,
           error := Some ''Microphone access is needed.''\<rparr>"
  using assms by (rule toggle_failure)

theorem failed_start_returns_to_idle_witness:
  "\<not> isListening initial \<and> getUserMedia startup_denied = Inl NotAllowedError
   \<and> liveStatus (toggleVoiceInput startup_denied initial) = IDLE
   \<and> \<not> isListening (toggleVoiceInput startup_denied initial)
   \<and> error (toggleVoiceInput startup_denied initial) = Some ''Microphone access is needed.''
   \<and> streamRef (toggleVoiceInput startup_denied initial) = None
   \<and> sessionRef (toggleVoiceInput startup_denied initial) = None
   \<and> effects (toggleVoiceInput startup_denied initial) = []"
proof -
  have h: "\<not> isListening initial" "getUserMedia startup_denied = Inl NotAllowedError"
    by (simp_all add: initial_def startup_denied_def startup_ok_def)
  show ?thesis
    using h failed_start_returns_to_idle [OF h] by (simp add: initial_def)
qed

text \<open>
  C9. Every finite sample \<open>f\<close> becomes the 16-bit integer whose signed reading is
  \<open>f * 32768\<close> truncated towards zero and wrapped into the signed 16-bit range modulo
  \<open>2\<^sup>1\<^sup>6\<close>; nothing is clamped.
\<close>

theorem floatToPcm16_wraps:
  assumes "i < length data" "data ! i = Finite f"
  shows "length (floatToPcm16 data) = length data
         \<and> sint (floatToPcm16 data ! i) = (trunc (f * 32768) + 32768) mod 65536 - 32768"
  using floatToPcm16_nth [OF assms] by (simp add: floatToPcm16_def)

theorem floatToPcm16_wraps_witness:
  "sint (floatToPcm16 [Finite (1 / 2), Finite 1, Finite (- 3 / 2), Finite (- 3 / 65536)] ! 0) = 16384
   \<and> sint (floatToPcm16 [Finite (1 / 2), Finite 1, Finite (- 3 / 2), Finite (- 3 / 65536)] ! 1) = - 32768
   \<and> sint (floatToPcm16 [Finite (1 / 2), Finite 1, Finite (- 3 / 2), Finite (- 3 / 65536)] ! 2) = 16384
   \<and> sint (floatToPcm16 [Finite (1 / 2), Finite 1, Finite (- 3 / 2), Finite (- 3 / 65536)] ! 3) = - 1"
  using floatToPcm16_wraps [of 0 "[Finite (1 / 2), Finite 1, Finite (- 3 / 2), Finite (- 3 / 65536)]" "1 / 2"]
    floatToPcm16_wraps [of 1 "[Finite (1 / 2), Finite 1, Finite (- 3 / 2), Finite (- 3 / 65536)]" 1]
    floatToPcm16_wraps [of 2 "[Finite (1 / 2), Finite 1, Finite (- 3 / 2), Finite (- 3 / 65536)]" "- 3 / 2"]
    floatToPcm16_wraps [of 3 "[Finite (1 / 2), Finite 1, Finite (- 3 / 2), Finite (- 3 / 65536)]" "- 3 / 65536"]
  by (simp add: trunc_def)

text \<open>The whole of \<^verbatim>\<open>createBlob\<close> on two samples, the first of which wraps.\<close>

lemma createBlob_example:
  "createBlob [Finite 1, Finite (1 / 2)] =
     Inr \<lparr>blob_data = map of_char ''AIAAQA=='', mimeType = ''audio/pcm;rate=16000''\<rparr>"
  by (simp add: createBlob_def floatToPcm16_def ToInt16_def times_def trunc_def int16_bytes_def
      encode_def btoa_def base64_encode_def base64_alphabet_def pad_char_def replicate_two)

text \<open>
  C5. For an input of an even number of bytes that holds at least one sample per channel,
  with a channel count and a sample rate the context supports, \<^verbatim>\<open>decodeAudioData\<close>
  returns one array per channel, each of the sample count divided by the channel count,
  rounded down, holding the de-interleaved samples divided by 32768, all in \<open>[-1, 1)\<close>.
  This includes the inputs whose sample count is not a multiple of the channel count:
  the samples of the incomplete last frame are dropped.
\<close>

theorem decodeAudioData_truncates_frames:
  assumes "new_Int16Array data = Inr dataInt16"
    and "0 < numChannels" "numChannels \<le> maxChannels ctx"
    and "minSampleRate ctx \<le> rate" "rate \<le> maxSampleRate ctx"
    and "numChannels \<le> length dataInt16"
  shows "decodeAudioData data ctx rate numChannels =
           Inr \<lparr>sampleRate = rate, frames = length dataInt16 div numChannels,
                channelData =
                  map (\<lambda>channel.
                         map (\<lambda>i. Finite (real_of_int (sint (dataInt16 ! (i * numChannels + channel)))
                                            / 32768))
                           [0..<length dataInt16 div numChannels])
                    [0..<numChannels]\<rparr>
         \<and> (\<forall>k. - 1 \<le> real_of_int (sint (dataInt16 ! k)) / 32768
                \<and> real_of_int (sint (dataInt16 ! k)) / 32768 < 1)"
  using decodeAudioData_returns [OF assms] sample_range by blast

theorem decodeAudioData_truncates_frames_witness:
  "new_Int16Array [1, 0, 2, 0, 0xFF, 0xFF, 0, 0x80] = Inr [1, 2, 0xFFFF, 0x8000]
   \<and> decodeAudioData [1, 0, 2, 0, 0xFF, 0xFF, 0, 0x80] ctx24k 24000 2 =
       Inr \<lparr>sampleRate = 24000, frames = 2,
            channelData = [[Finite (1 / 32768), Finite (- 1 / 32768)],
                           [Finite (2 / 32768), Finite (- 1)]]\<rparr>"
proof -
  have view: "new_Int16Array [1, 0, 2, 0, 0xFF, 0xFF, 0, 0x80] = Inr [1, 2, 0xFFFF, 0x8000]"
    by (simp add: new_Int16Array_def)
  have two: "[0..<2] = [0, Suc 0]" by (simp add: upt_rec)
  have half: "(4::nat) div 2 = 2" by simp
  show ?thesis
    using view two half
      decodeAudioData_truncates_frames [OF view, of 2 ctx24k 24000]
    by (simp add: ctx24k_def)
qed

text \<open>
  Three samples for two channels: the call returns a buffer of one frame instead of
  failing.
\<close>

theorem decodeAudioData_no_layout_failure_counterexample:
  "new_Int16Array [1, 0, 2, 0, 3, 0] = Inr [1, 2, 3]
   \<and> length [1, 2, 3 :: 16 word] mod 2 \<noteq> 0
   \<and> decodeAudioData [1, 0, 2, 0, 3, 0] ctx24k 24000 2 =
       Inr \<lparr>sampleRate = 24000, frames = 1,
            channelData = [[Finite (1 / 32768)], [Finite (2 / 32768)]]\<rparr>"
  using new_Int16Array_three decodeAudioData_three by simp

subsection \<open>The status after an event\<close>

lemma onmessage_liveStatus:
  "liveStatus (fst (onmessage ctx t m s)) =
     (if has_interrupted m \<and> snd (onmessage ctx t m s) = None then LISTENING
      else if has_modelTurn m then SPEAKING
      else if has_turnComplete m then LISTENING
      else liveStatus s)"
proof -
  let ?s1 = "if has_modelTurn m then s\<lparr>liveStatus := SPEAKING\<rparr>
             else if has_turnComplete m then s\<lparr>liveStatus := LISTENING\<rparr> else s"
  have s1: "liveStatus ?s1 = (if has_modelTurn m then SPEAKING
      else if has_turnComplete m then LISTENING else liveStatus s)" by simp
  show ?thesis
  proof (cases "base64Audio_of m")
    case (Inl e)
    then show ?thesis by (simp add: onmessage_def Let_def)
  next
    case (Inr a)
    obtain s2 r where p: "play_audio ctx t a ?s1 = (s2, r)" by (cases "play_audio ctx t a ?s1")
    have "liveStatus s2 = liveStatus ?s1"
      using play_audio_liveStatus [of ctx t a ?s1] p by simp
    then show ?thesis
      using Inr p s1 by (cases r) (simp_all add: onmessage_def Let_def interrupt_def)
  qed
qed

lemma onended_liveStatus:
  "liveStatus (onended source s) =
     (if set_delete source (sourcesRef s) = [] then LISTENING else liveStatus s)"
  by (simp add: onended_def Let_def)

lemma onmessage_sources_emptied:
  assumes "sourcesRef s \<noteq> []" "sourcesRef (fst (onmessage ctx t m s)) = []"
  shows "liveStatus (fst (onmessage ctx t m s)) = LISTENING"
proof -
  let ?s1 = "if has_modelTurn m then s\<lparr>liveStatus := SPEAKING\<rparr>
             else if has_turnComplete m then s\<lparr>liveStatus := LISTENING\<rparr> else s"
  have ne1: "sourcesRef ?s1 \<noteq> []" using assms(1) by simp
  show ?thesis
  proof (cases "base64Audio_of m")
    case (Inl e)
    then show ?thesis using assms ne1 by (simp add: onmessage_def Let_def split: if_splits)
  next
    case (Inr a)
    obtain s2 r where p: "play_audio ctx t a ?s1 = (s2, r)" by (cases "play_audio ctx t a ?s1")
    have "set (sourcesRef ?s1) \<subseteq> set (sourcesRef s2)"
      using play_audio_sources [of ?s1 ctx t a] p by simp
    with ne1 have ne2: "sourcesRef s2 \<noteq> []" by auto
    show ?thesis
    proof (cases "has_interrupted m \<and> r = None")
      case True
      then show ?thesis using Inr p by (simp add: onmessage_def Let_def interrupt_def)
    next
      case False
      then have "fst (onmessage ctx t m s) = s2"
        using Inr p by (cases r) (auto simp: onmessage_def Let_def)
      with assms(2) ne2 show ?thesis by simp
    qed
  qed
qed

text \<open>
  C1. The status follows the events. After a message it is \<^verbatim>\<open>LISTENING\<close> when the
  interruption of the message was carried out, otherwise \<^verbatim>\<open>SPEAKING\<close> when the message has
  a model turn, otherwise \<^verbatim>\<open>LISTENING\<close> when it has the turn-complete marker, whether or not
  buffers are still playing, and otherwise what it was. After the end of a buffer it is
  \<^verbatim>\<open>LISTENING\<close> when no buffer is left in the active set, and otherwise what it was. So
  the status is \<^verbatim>\<open>LISTENING\<close> at the moment a message or the end of a buffer empties an
  active set that was not empty.
\<close>

theorem liveStatus_follows_events:
  "liveStatus (fst (onmessage ctx t m s)) =
     (if has_interrupted m \<and> snd (onmessage ctx t m s) = None then LISTENING
      else if has_modelTurn m then SPEAKING
      else if has_turnComplete m then LISTENING
      else liveStatus s)
   \<and> liveStatus (onended source s) =
       (if set_delete source (sourcesRef s) = [] then LISTENING else liveStatus s)
   \<and> (sourcesRef s \<noteq> [] \<and> sourcesRef (step ctx s (Message t m)) = []
        \<longrightarrow> liveStatus (step ctx s (Message t m)) = LISTENING)
   \<and> (sourcesRef s \<noteq> [] \<and> sourcesRef (step ctx s (Ended source)) = []
        \<longrightarrow> liveStatus (step ctx s (Ended source)) = LISTENING)"
  using onmessage_liveStatus [of ctx t m s] onended_liveStatus [of source s]
    onmessage_sources_emptied [of s ctx t m]
  by (auto simp: onended_def Let_def)

theorem liveStatus_follows_events_witness:
  "sourcesRef one_playing \<noteq> [] \<and> sourcesRef (step ctx24k one_playing (Ended 0)) = []
   \<and> liveStatus (step ctx24k one_playing (Ended 0)) = LISTENING
   \<and> liveStatus (fst (onmessage ctx24k 1 turn_complete_message one_playing)) = LISTENING"
proof -
  have h: "sourcesRef one_playing \<noteq> []" "sourcesRef (step ctx24k one_playing (Ended 0)) = []"
    by (simp_all add: one_playing_def started_def onended_def set_delete_def)
  have f: "\<not> has_interrupted turn_complete_message" "\<not> has_modelTurn turn_complete_message"
    "has_turnComplete turn_complete_message"
    by (simp_all add: has_interrupted_def has_modelTurn_def has_turnComplete_def
        turn_complete_message_def)
  show ?thesis
    using h f liveStatus_follows_events [of ctx24k 1 turn_complete_message one_playing 0]
    by (simp add: set_delete_def one_playing_def started_def)
qed

lemma onmessage_audio_started:
  "onmessage ctx24k 1 audio_message started = (one_playing, None)"
  using onmessage_scheduled [OF base64Audio_of_audio_message silence_not_empty decode_silence
      decodeAudioData_silence audio_message_not_interrupted, of 1 started]
  by (simp add: duration_silence one_playing_def started_def set_add_def)

lemma onmessage_turn_complete_playing:
  "onmessage ctx24k 1 turn_complete_message one_playing
   = (one_playing\<lparr>liveStatus := LISTENING\<rparr>, None)"
  by (simp add: onmessage_def has_modelTurn_def has_turnComplete_def has_interrupted_def
      turn_complete_message_def base64Audio_of_def play_audio_def)

text \<open>
  After a successful start, a message with audio and then a turn-complete message: the
  status is \<^verbatim>\<open>LISTENING\<close> while the buffer of the first message is still in the active set.
\<close>

theorem speaking_iff_active_counterexample:
  "liveStatus (run ctx24k (toggleVoiceInput startup_ok initial) [Message 1 audio_message])
     = SPEAKING
   \<and> liveStatus (run ctx24k (toggleVoiceInput startup_ok initial)
        [Message 1 audio_message, Message 1 turn_complete_message]) = LISTENING
   \<and> sourcesRef (run ctx24k (toggleVoiceInput startup_ok initial)
        [Message 1 audio_message, Message 1 turn_complete_message]) = [0]"
  by (simp add: run_def toggle_started onmessage_audio_started onmessage_turn_complete_playing)
     (simp add: one_playing_def)

end
